theory Spec2Isabelle
  imports Main "HOL-Library.Multiset"
begin

section \<open>The file provider: data model\<close>

text \<open>
  A shallow embedding of \<^verbatim>\<open>provider/file/file.go\<close>. Paths are strings. The operating
  system, the Go standard library and the decoder of the embedded base provider are not part
  of the file: they are the fields of the record \<open>env\<close>, and every function of the
  provider takes the environment as an argument. The environment is one snapshot of the
  filesystem: it does not change during one call.
\<close>

type_synonym path = string

text \<open>\<^verbatim>\<open>os.FileInfo\<close>, reduced to the two methods the provider calls.\<close>

record FileInfo =
  Name :: string
  IsDir :: bool

text \<open>
  Errors are values. \<open>External\<close> is an error that comes from outside the provider (the
  operating system, the decoder); every other constructor is one \<^verbatim>\<open>fmt.Errorf\<close> or
  \<^verbatim>\<open>errors.New\<close> call of the file, with the values it formats.
\<close>

datatype error =
    External string
  | UnableToStat path error
  | UnableToInitSubDirectories path error
  | UnableToInitSubDirectoriesRecursively path error
  | NoFilenameDefined
  | ErrorCreatingWatcher error
  | InvalidFilename path
  | ErrorReadingConfigurationFile path error
  | UnableToReadDirectory path error
  | UnableToLoadSubdirectory string error

text \<open>
  Backends, frontends and TLS configurations are held by pointer
  (\<^verbatim>\<open>map[string]*types.Backend\<close>, \<^verbatim>\<open>[]*tls.Configuration\<close>); the provider never looks
  inside them, so a pointer is its address. A Go map is an association list with at most one
  entry per key, in the order in which \<^verbatim>\<open>range\<close> visits it (Go leaves that order
  open; nothing below depends on it beyond what the theorems say). A map or a slice may be
  nil: \<open>None\<close>.
\<close>

type_synonym ptr = nat

record Configuration =
  Backends :: "(string \<times> ptr) list option"
  Frontends :: "(string \<times> ptr) list option"
  TLS :: "ptr list option"

record ConfigMessage =
  ProviderName :: string
  Configuration :: "Configuration option"

text \<open>The environment: what the provider calls and does not define.\<close>

record env =
  os_Stat :: "path \<Rightarrow> error + FileInfo"
  ioutil_ReadDir :: "path \<Rightarrow> error + FileInfo list"
  ioutil_ReadFile :: "path \<Rightarrow> error + string"
  filepath_Join :: "path \<Rightarrow> string \<Rightarrow> path"
  path_Join :: "path \<Rightarrow> string \<Rightarrow> path"
  CreateConfiguration :: "string \<Rightarrow> Configuration option \<times> error option"
  DecodeConfiguration :: "string \<Rightarrow> Configuration option \<times> error option"

text \<open>
  The provider. \<open>Filename\<close> and \<open>Watch\<close> are fields of the embedded base provider.
  \<open>watchedDirectories\<close> is the map that \<^verbatim>\<open>Init\<close> makes; the embedding is of a provider
  after \<^verbatim>\<open>Init\<close>, whose map is not nil.
\<close>

record Provider =
  Directory :: string
  Filename :: string
  Watch :: bool
  TraefikFile :: string
  watchedDirectories :: "path \<rightharpoonup> path list"

definition Init :: "Provider \<Rightarrow> Provider" where
  "Init p = p\<lparr>watchedDirectories := Map.empty\<rparr>"

subsection \<open>Strings\<close>

text \<open>\<^verbatim>\<open>strings.HasSuffix\<close> and \<^verbatim>\<open>strings.TrimSuffix\<close>, as the Go library defines them.\<close>

definition strings_HasSuffix :: "string \<Rightarrow> string \<Rightarrow> bool" where
  "strings_HasSuffix s suffix \<longleftrightarrow>
     length s \<ge> length suffix \<and> drop (length s - length suffix) s = suffix"

definition strings_TrimSuffix :: "string \<Rightarrow> string \<Rightarrow> string" where
  "strings_TrimSuffix s suffix =
     (if strings_HasSuffix s suffix then take (length s - length suffix) s else s)"

text \<open>
  \<^verbatim>\<open>filepath.Split\<close> on a system whose separator is the slash and that has no volume
  names: the path is cut right after its last slash.
\<close>

definition filepath_Split :: "path \<Rightarrow> path \<times> string" where
  "filepath_Split p =
     (rev (dropWhile (\<lambda>c. c \<noteq> CHR ''/'') (rev p)), rev (takeWhile (\<lambda>c. c \<noteq> CHR ''/'') (rev p)))"

section \<open>getDirectoriesRecursively\<close>

text \<open>
  The first argument bounds the depth of the recursion (the depth of the call stack):
  \<open>None\<close> is a run that needs a deeper stack than the bound. The function returns its
  result and the provider, whose \<open>watchedDirectories\<close> it has written.
  \<open>getDirectoriesRecursively_range\<close> is the loop over \<^verbatim>\<open>fileList\<close>, with the slice
  \<^verbatim>\<open>directories\<close> built so far. A nil slice of paths is the empty list.
\<close>

fun getDirectoriesRecursively ::
    "nat \<Rightarrow> env \<Rightarrow> Provider \<Rightarrow> path \<Rightarrow> ((error + path list) \<times> Provider) option"
  and getDirectoriesRecursively_range ::
    "nat \<Rightarrow> env \<Rightarrow> Provider \<Rightarrow> path \<Rightarrow> FileInfo list \<Rightarrow> path list
       \<Rightarrow> ((error + path list) \<times> Provider) option"
where
  "getDirectoriesRecursively 0 e p rootDir = None"
| "getDirectoriesRecursively (Suc n) e p rootDir =
     (case os_Stat e rootDir of
        Inl err \<Rightarrow> Some (Inl (UnableToStat rootDir err), p)
      | Inr rootDirInfo \<Rightarrow>
          if \<not> IsDir rootDirInfo then Some (Inr [], p)
          else
            (case ioutil_ReadDir e rootDir of
               Inl err \<Rightarrow> Some (Inl (UnableToInitSubDirectories rootDir err), p)
             | Inr fileList \<Rightarrow>
                 (case getDirectoriesRecursively_range n e p rootDir fileList [rootDir] of
                    None \<Rightarrow> None
                  | Some (Inl err, p') \<Rightarrow> Some (Inl err, p')
                  | Some (Inr directories, p') \<Rightarrow>
                      Some (Inr directories,
                            p'\<lparr>watchedDirectories :=
                                 (watchedDirectories p')(rootDir \<mapsto> directories)\<rparr>))))"
| "getDirectoriesRecursively_range n e p rootDir [] directories = Some (Inr directories, p)"
| "getDirectoriesRecursively_range n e p rootDir (item # fileList) directories =
     (if IsDir item then
        (case getDirectoriesRecursively n e p
                (strings_TrimSuffix rootDir ''/'' @ ''/'' @ Name item) of
           None \<Rightarrow> None
         | Some (Inl err, p') \<Rightarrow>
             Some (Inl (UnableToInitSubDirectoriesRecursively rootDir err), p')
         | Some (Inr subDir, p') \<Rightarrow>
             getDirectoriesRecursively_range n e p' rootDir fileList (directories @ subDir))
      else getDirectoriesRecursively_range n e p rootDir fileList directories)"

section \<open>Loading one file\<close>

definition readFile :: "env \<Rightarrow> path \<Rightarrow> string \<times> error option" where
  "readFile e filename =
     (if length filename > 0 then
        (case ioutil_ReadFile e filename of
           Inl err \<Rightarrow> ([], Some err)
         | Inr buf \<Rightarrow> (buf, None))
      else ([], Some (InvalidFilename filename)))"

text \<open>The configuration that both loaders make when they have none: two empty maps, no TLS slice.\<close>

definition emptyConfiguration :: Configuration where
  "emptyConfiguration = \<lparr>Backends = Some [], Frontends = Some [], TLS = None\<rparr>"

definition loadFileConfig :: "env \<Rightarrow> path \<Rightarrow> bool \<Rightarrow> Configuration option \<times> error option" where
  "loadFileConfig e filename parseTemplate =
     (case readFile e filename of
        (fileContent, Some err) \<Rightarrow> (None, Some (ErrorReadingConfigurationFile filename err))
      | (fileContent, None) \<Rightarrow>
          (case (if parseTemplate then CreateConfiguration e fileContent
                 else DecodeConfiguration e fileContent) of
             (configuration, Some err) \<Rightarrow> (None, Some err)
           | (None, None) \<Rightarrow> (Some emptyConfiguration, None)
           | (Some c, None) \<Rightarrow>
               if Backends c = None \<and> Frontends c = None \<and> TLS c = None
               then (Some emptyConfiguration, None)
               else (Some c, None)))"

section \<open>Merging a directory\<close>

text \<open>
  A run of the merge returns, panics (a write to a nil map, a dereference of a nil pointer)
  or needs a deeper stack than the bound it was given.
\<close>

datatype 'a run = Returns 'a | Panics | Exhausted

datatype log_entry =
    Warnf_BackendAlreadyConfigured string
  | Warnf_FrontendAlreadyConfigured string
  | Warnf_TLSAlreadyConfigured ptr
  | Errorf_UnableToGetSubDirectories path error
  | Errorf_WatcherCallback error
  | Debugf_UnableToGetModifications path error

text \<open>Go maps: the test \<^verbatim>\<open>_, exists := m[k]\<close>, the entries \<^verbatim>\<open>range m\<close> visits, and \<^verbatim>\<open>m[k] = v\<close> on a map that is not nil.\<close>

definition map_exists :: "(string \<times> ptr) list option \<Rightarrow> string \<Rightarrow> bool" where
  "map_exists m k = (case m of None \<Rightarrow> False | Some kvs \<Rightarrow> map_of kvs k \<noteq> None)"

definition map_range :: "(string \<times> ptr) list option \<Rightarrow> (string \<times> ptr) list" where
  "map_range m = (case m of None \<Rightarrow> [] | Some kvs \<Rightarrow> kvs)"

fun map_assign :: "string \<Rightarrow> ptr \<Rightarrow> (string \<times> ptr) list \<Rightarrow> (string \<times> ptr) list" where
  "map_assign k v [] = [(k, v)]"
| "map_assign k v (kv # kvs) = (if fst kv = k then (k, v) # kvs else kv # map_assign k v kvs)"

text \<open>A slice that may be nil: its elements, and \<^verbatim>\<open>append\<close> of one element.\<close>

definition slice_range :: "ptr list option \<Rightarrow> ptr list" where
  "slice_range s = (case s of None \<Rightarrow> [] | Some xs \<Rightarrow> xs)"

definition slice_append :: "ptr list option \<Rightarrow> ptr \<Rightarrow> ptr list option" where
  "slice_append s x = Some (slice_range s @ [x])"

text \<open>
  The three loops over a loaded file \<^verbatim>\<open>c\<close> (lines 277 to 299). The log is the list of
  the messages written so far. \<open>configTLSMaps\<close> is the set of the TLS pointers seen in this
  directory, a list without repetition in the order of insertion.
\<close>

fun range_Backends ::
    "(string \<times> ptr) list \<Rightarrow> Configuration \<Rightarrow> log_entry list \<Rightarrow> (Configuration \<times> log_entry list) run"
where
  "range_Backends [] configuration lg = Returns (configuration, lg)"
| "range_Backends ((backendName, backend) # rest) configuration lg =
     (if map_exists (Backends configuration) backendName then
        range_Backends rest configuration (lg @ [Warnf_BackendAlreadyConfigured backendName])
      else
        (case Backends configuration of
           None \<Rightarrow> Panics
         | Some m \<Rightarrow>
             range_Backends rest
               (configuration\<lparr>Backends := Some (map_assign backendName backend m)\<rparr>) lg))"

fun range_Frontends ::
    "(string \<times> ptr) list \<Rightarrow> Configuration \<Rightarrow> log_entry list \<Rightarrow> (Configuration \<times> log_entry list) run"
where
  "range_Frontends [] configuration lg = Returns (configuration, lg)"
| "range_Frontends ((frontendName, frontend) # rest) configuration lg =
     (if map_exists (Frontends configuration) frontendName then
        range_Frontends rest configuration (lg @ [Warnf_FrontendAlreadyConfigured frontendName])
      else
        (case Frontends configuration of
           None \<Rightarrow> Panics
         | Some m \<Rightarrow>
             range_Frontends rest
               (configuration\<lparr>Frontends := Some (map_assign frontendName frontend m)\<rparr>) lg))"

fun range_TLS :: "ptr list \<Rightarrow> ptr list \<Rightarrow> log_entry list \<Rightarrow> ptr list \<times> log_entry list" where
  "range_TLS [] configTLSMaps lg = (configTLSMaps, lg)"
| "range_TLS (conf # rest) configTLSMaps lg =
     (if conf \<in> set configTLSMaps then
        range_TLS rest configTLSMaps (lg @ [Warnf_TLSAlreadyConfigured conf])
      else range_TLS rest (configTLSMaps @ [conf]) lg)"

definition mergeLoaded ::
    "Configuration \<Rightarrow> Configuration \<Rightarrow> ptr list \<Rightarrow> log_entry list
       \<Rightarrow> (Configuration \<times> ptr list \<times> log_entry list) run"
where
  "mergeLoaded c configuration configTLSMaps lg =
     (case range_Backends (map_range (Backends c)) configuration lg of
        Panics \<Rightarrow> Panics
      | Exhausted \<Rightarrow> Exhausted
      | Returns (configuration1, lg1) \<Rightarrow>
          (case range_Frontends (map_range (Frontends c)) configuration1 lg1 of
             Panics \<Rightarrow> Panics
           | Exhausted \<Rightarrow> Exhausted
           | Returns (configuration2, lg2) \<Rightarrow>
               (case range_TLS (slice_range (TLS c)) configTLSMaps lg2 of
                  (configTLSMaps', lg3) \<Rightarrow> Returns (configuration2, configTLSMaps', lg3))))"

text \<open>The last loop (lines 302 to 304): every pointer of \<open>configTLSMaps\<close> is appended.\<close>

definition appendTLS :: "ptr list \<Rightarrow> Configuration \<Rightarrow> Configuration" where
  "appendTLS configTLSMaps configuration =
     configuration\<lparr>TLS := fold (\<lambda>conf s. slice_append s conf) configTLSMaps (TLS configuration)\<rparr>"

definition recognized :: "string \<Rightarrow> bool" where
  "recognized name \<longleftrightarrow> strings_HasSuffix name ''.toml'' \<or> strings_HasSuffix name ''.tmpl''"

text \<open>
  \<open>loadFileConfigFromDirectory\<close> returns the pair of Go (a configuration and an error, of
  which both may be there) and the log. Its first argument bounds the depth of the recursion.
  \<open>loadFileConfigFromDirectory_range\<close> is the loop over \<^verbatim>\<open>fileList\<close>.
\<close>

fun loadFileConfigFromDirectory ::
    "nat \<Rightarrow> env \<Rightarrow> path \<Rightarrow> Configuration option \<Rightarrow> log_entry list
       \<Rightarrow> ((Configuration option \<times> error option) \<times> log_entry list) run"
  and loadFileConfigFromDirectory_range ::
    "nat \<Rightarrow> env \<Rightarrow> path \<Rightarrow> FileInfo list \<Rightarrow> Configuration \<Rightarrow> ptr list \<Rightarrow> log_entry list
       \<Rightarrow> ((Configuration option \<times> error option) \<times> log_entry list) run"
where
  "loadFileConfigFromDirectory 0 e directory configuration lg = Exhausted"
| "loadFileConfigFromDirectory (Suc n) e directory configuration lg =
     (case ioutil_ReadDir e directory of
        Inl err \<Rightarrow> Returns ((configuration, Some (UnableToReadDirectory directory err)), lg)
      | Inr fileList \<Rightarrow>
          loadFileConfigFromDirectory_range n e directory fileList
            (case configuration of None \<Rightarrow> emptyConfiguration | Some c \<Rightarrow> c) [] lg)"
| "loadFileConfigFromDirectory_range n e directory [] configuration configTLSMaps lg =
     Returns ((Some (appendTLS configTLSMaps configuration), None), lg)"
| "loadFileConfigFromDirectory_range n e directory (item # fileList) configuration configTLSMaps lg =
     (if IsDir item then
        (case loadFileConfigFromDirectory n e (filepath_Join e directory (Name item))
                (Some configuration) lg of
           Panics \<Rightarrow> Panics
         | Exhausted \<Rightarrow> Exhausted
         | Returns ((configuration', Some err), lg') \<Rightarrow>
             Returns ((configuration', Some (UnableToLoadSubdirectory (Name item) err)), lg')
         | Returns ((None, None), lg') \<Rightarrow> Panics
         | Returns ((Some configuration', None), lg') \<Rightarrow>
             loadFileConfigFromDirectory_range n e directory fileList configuration'
               configTLSMaps lg')
      else if \<not> recognized (Name item) then
        loadFileConfigFromDirectory_range n e directory fileList configuration configTLSMaps lg
      else
        (case loadFileConfig e (path_Join e directory (Name item)) True of
           (c, Some err) \<Rightarrow> Returns ((Some configuration, Some err), lg)
         | (None, None) \<Rightarrow> Panics
         | (Some c, None) \<Rightarrow>
             (case mergeLoaded c configuration configTLSMaps lg of
                Panics \<Rightarrow> Panics
              | Exhausted \<Rightarrow> Exhausted
              | Returns (configuration', configTLSMaps', lg') \<Rightarrow>
                  loadFileConfigFromDirectory_range n e directory fileList configuration'
                    configTLSMaps' lg')))"

definition BuildConfiguration ::
    "nat \<Rightarrow> env \<Rightarrow> Provider \<Rightarrow> log_entry list
       \<Rightarrow> ((Configuration option \<times> error option) \<times> log_entry list) run"
where
  "BuildConfiguration n e p lg =
     (if length (Directory p) > 0 then loadFileConfigFromDirectory n e (Directory p) None lg
      else if length (Filename p) > 0 then Returns (loadFileConfig e (Filename p) True, lg)
      else if length (TraefikFile p) > 0 then Returns (loadFileConfig e (TraefikFile p) False, lg)
      else Returns ((None, Some NoFilenameDefined), lg))"

section \<open>The watcher\<close>

text \<open>
  An event of the watcher. The operation of \<^verbatim>\<open>fsnotify\<close> is a bit mask that the provider
  only compares with the constants \<^verbatim>\<open>Remove\<close>, \<^verbatim>\<open>Rename\<close> and \<^verbatim>\<open>Create\<close>:
  \<open>Mixed\<close> is a mask that is none of the five constants.
\<close>

datatype Op = Create | Write | Remove | Rename | Chmod | Mixed nat

record Event =
  Event_Name :: string
  Event_Op :: Op

text \<open>
  What the goroutine of \<^verbatim>\<open>addWatcher\<close> works on: the provider, the calls it has made on
  the watcher (in the order of the calls), the log, and the messages sent on the channel.
\<close>

datatype watcher_call = Watcher_Add path | Watcher_Remove path

record World =
  provider :: Provider
  watcher :: "watcher_call list"
  logged :: "log_entry list"
  configurationChan :: "ConfigMessage list"

definition sendConfigToChannel :: "Configuration option \<Rightarrow> World \<Rightarrow> World" where
  "sendConfigToChannel configuration w =
     w\<lparr>configurationChan := configurationChan w @
          [\<lparr>ProviderName = ''file'', Configuration = configuration\<rparr>]\<rparr>"

definition watchItem :: "Provider \<Rightarrow> path" where
  "watchItem p =
     (if length (Directory p) > 0 then Directory p
      else if length (Filename p) > 0 then Filename p
      else TraefikFile p)"

definition watcherCallback :: "nat \<Rightarrow> env \<Rightarrow> World \<Rightarrow> World run" where
  "watcherCallback n e w =
     (case os_Stat e (watchItem (provider w)) of
        Inl err \<Rightarrow>
          Returns (w\<lparr>logged := logged w @
                       [Debugf_UnableToGetModifications (watchItem (provider w)) err]\<rparr>)
      | Inr info \<Rightarrow>
          (case BuildConfiguration n e (provider w) (logged w) of
             Panics \<Rightarrow> Panics
           | Exhausted \<Rightarrow> Exhausted
           | Returns ((configuration, Some err), lg) \<Rightarrow>
               Returns (w\<lparr>logged := lg @ [Errorf_WatcherCallback err]\<rparr>)
           | Returns ((configuration, None), lg) \<Rightarrow>
               Returns (sendConfigToChannel configuration (w\<lparr>logged := lg\<rparr>))))"

text \<open>
  The loop of lines 153 to 156: \<open>removeWatched subDirectories (Suc i) w\<close> is the loop at
  index \<open>i\<close>, and it starts at \<open>length subDirectories\<close>.
\<close>

fun removeWatched :: "path list \<Rightarrow> nat \<Rightarrow> World \<Rightarrow> World" where
  "removeWatched subDirectories 0 w = w"
| "removeWatched subDirectories (Suc i) w =
     removeWatched subDirectories i
       (w\<lparr>watcher := watcher w @ [Watcher_Remove (subDirectories ! i)],
          provider := (provider w)\<lparr>watchedDirectories :=
            (watchedDirectories (provider w))(subDirectories ! i := None)\<rparr>\<rparr>)"

text \<open>
  One event in directory mode, before the callback (lines 151 to 167): what the event does to
  the watched directories and to the watcher.
\<close>

definition watchDirectoryEvent :: "nat \<Rightarrow> env \<Rightarrow> Event \<Rightarrow> World \<Rightarrow> World run" where
  "watchDirectoryEvent n e evt w =
     (if Event_Op evt = Remove \<or> Event_Op evt = Rename then
        (case watchedDirectories (provider w) (Event_Name evt) of
           None \<Rightarrow> Returns w
         | Some subDirectories \<Rightarrow>
             Returns (removeWatched subDirectories (length subDirectories) w))
      else if Event_Op evt = Create then
        (case getDirectoriesRecursively n e (provider w) (Event_Name evt) of
           None \<Rightarrow> Exhausted
         | Some (Inl err, p') \<Rightarrow>
             Returns (w\<lparr>provider := p',
                        logged := logged w @
                          [Errorf_UnableToGetSubDirectories (Event_Name evt) err]\<rparr>)
         | Some (Inr dirToAdd, p') \<Rightarrow>
             Returns (w\<lparr>provider := p', watcher := watcher w @ map Watcher_Add dirToAdd\<rparr>))
      else Returns w)"

text \<open>
  One event of \<^verbatim>\<open>watcher.Events\<close> (lines 136 to 169), with the callback that
  \<^verbatim>\<open>addWatcher\<close> was given.
\<close>

definition addWatcher_event ::
    "(World \<Rightarrow> World run) \<Rightarrow> nat \<Rightarrow> env \<Rightarrow> Event \<Rightarrow> World \<Rightarrow> World run"
where
  "addWatcher_event callback n e evt w =
     (if length (Directory (provider w)) = 0 then
        (let filename = (if length (Filename (provider w)) > 0 then Filename (provider w)
                         else TraefikFile (provider w));
             evtFileName = snd (filepath_Split (Event_Name evt));
             confFileName = snd (filepath_Split filename)
         in if evtFileName = confFileName then callback w else Returns w)
      else
        (case watchDirectoryEvent n e evt w of
           Panics \<Rightarrow> Panics
         | Exhausted \<Rightarrow> Exhausted
         | Returns w' \<Rightarrow> callback w'))"

section \<open>Directory trees\<close>

text \<open>
  A directory tree, to state what the two recursive functions compute: a file with what is
  known of it, or a directory with its entries by name, in the order of the listing.
\<close>

datatype 'a tree = File 'a | Dir "(string \<times> 'a tree) list"

fun is_Dir :: "'a tree \<Rightarrow> bool" where
  "is_Dir (Dir es) = True"
| "is_Dir (File x) = False"

definition item_of :: "string \<times> 'a tree \<Rightarrow> FileInfo" where
  "item_of entry = \<lparr>Name = fst entry, IsDir = is_Dir (snd entry)\<rparr>"

text \<open>The depth of a tree: the number of nested calls a walk of it needs.\<close>

fun depth :: "'a tree \<Rightarrow> nat" where
  "depth (File x) = 0"
| "depth (Dir es) = Suc (fold max (map (\<lambda>(n, t). depth t) es) 0)"

text \<open>The names a directory listing can hold: not empty, without a slash, each once.\<close>

fun wf_names :: "'a tree \<Rightarrow> bool" where
  "wf_names (File x) = True"
| "wf_names (Dir es) =
     (distinct (map fst es) \<and>
      list_all (\<lambda>(n, t). n \<noteq> [] \<and> CHR ''/'' \<notin> set n \<and> wf_names t) es)"

subsection \<open>Trees of watched directories\<close>

text \<open>The path under which \<open>getDirectoriesRecursively\<close> visits the entry \<open>name\<close> of \<open>rootDir\<close>.\<close>

definition child :: "path \<Rightarrow> string \<Rightarrow> path" where
  "child rootDir name = strings_TrimSuffix rootDir ''/'' @ ''/'' @ name"

text \<open>
  \<open>dir_at e p t\<close>: in the environment \<open>e\<close>, the path \<open>p\<close> is a directory whose listing, and
  those of its subdirectories, are the ones of \<open>t\<close>.
\<close>

fun dir_at :: "env \<Rightarrow> path \<Rightarrow> 'a tree \<Rightarrow> bool" where
  "dir_at e p (File x) = True"
| "dir_at e p (Dir es) =
     ((case os_Stat e p of Inl err \<Rightarrow> False | Inr info \<Rightarrow> IsDir info) \<and>
      ioutil_ReadDir e p = Inr (map item_of es) \<and>
      list_all (\<lambda>(n, t). dir_at e (child p n) t) es)"

text \<open>The directories of a tree: the root first, then each subtree in turn, depth first.\<close>

fun listing :: "path \<Rightarrow> 'a tree \<Rightarrow> path list" where
  "listing p (File x) = []"
| "listing p (Dir es) = p # concat (map (\<lambda>(n, t). listing (child p n) t) es)"

text \<open>The same walk, with the subtree at each directory.\<close>

fun subdirs :: "path \<Rightarrow> 'a tree \<Rightarrow> (path \<times> 'a tree) list" where
  "subdirs p (File x) = []"
| "subdirs p (Dir es) = (p, Dir es) # concat (map (\<lambda>(n, t). subdirs (child p n) t) es)"

text \<open>The provider after a walk of the tree: each directory is recorded after its subtrees.\<close>

fun recorded :: "Provider \<Rightarrow> path \<Rightarrow> 'a tree \<Rightarrow> Provider" where
  "recorded p root (File x) = p"
| "recorded p root (Dir es) =
     (let p' = fold (\<lambda>(n, t) q. recorded q (child root n) t) es p
      in p'\<lparr>watchedDirectories := (watchedDirectories p')(root \<mapsto> listing root (Dir es))\<rparr>)"

definition below :: "path \<Rightarrow> path \<Rightarrow> bool" where
  "below c x \<longleftrightarrow> (\<exists>s. x = c @ s \<and> (s = [] \<or> hd s = CHR ''/''))"

subsection \<open>The watched directories of a running provider\<close>

text \<open>
  Every list that \<open>getDirectoriesRecursively\<close> records starts with its own key. The
  property holds after \<^verbatim>\<open>Init\<close> and is kept by every write to the map.
\<close>

definition keyed_by_head :: "Provider \<Rightarrow> bool" where
  "keyed_by_head p \<longleftrightarrow>
     (\<forall>k l. watchedDirectories p k = Some l \<longrightarrow> l \<noteq> [] \<and> hd l = k)"

subsection \<open>Configurations whose two maps are not nil\<close>


section \<open>An example filesystem\<close>

text \<open>
  The directory \<^verbatim>\<open>/c\<close> holds the files \<^verbatim>\<open>a.toml\<close> and \<^verbatim>\<open>n.txt\<close> and the
  directory \<^verbatim>\<open>s\<close>, which holds the file \<^verbatim>\<open>b.toml\<close> and the empty directory
  \<^verbatim>\<open>t\<close>. The directory \<^verbatim>\<open>/u\<close> cannot be listed. The decoder reads the content
  \<^verbatim>\<open>A\<close> as a backend and a frontend, \<^verbatim>\<open>B\<close> as a backend and a TLS configuration
  with no frontend map, \<^verbatim>\<open>N\<close> as the nil configuration and \<^verbatim>\<open>E\<close> as a
  configuration whose three containers are nil; it rejects any other content.
\<close>

definition example_Stat :: "path \<Rightarrow> error + FileInfo" where
  "example_Stat p =
     (if p = ''/c'' then Inr \<lparr>Name = ''c'', IsDir = True\<rparr>
      else if p = ''/c/s'' then Inr \<lparr>Name = ''s'', IsDir = True\<rparr>
      else if p = ''/c/s/t'' then Inr \<lparr>Name = ''t'', IsDir = True\<rparr>
      else if p = ''/c/a.toml'' then Inr \<lparr>Name = ''a.toml'', IsDir = False\<rparr>
      else if p = ''/c/s/b.toml'' then Inr \<lparr>Name = ''b.toml'', IsDir = False\<rparr>
      else if p = ''/c/n.txt'' then Inr \<lparr>Name = ''n.txt'', IsDir = False\<rparr>
      else if p = ''/u'' then Inr \<lparr>Name = ''u'', IsDir = True\<rparr>
      else Inl (External ''no such file or directory''))"

definition example_ReadDir :: "path \<Rightarrow> error + FileInfo list" where
  "example_ReadDir p =
     (if p = ''/c'' then
        Inr [\<lparr>Name = ''a.toml'', IsDir = False\<rparr>, \<lparr>Name = ''n.txt'', IsDir = False\<rparr>,
             \<lparr>Name = ''s'', IsDir = True\<rparr>]
      else if p = ''/c/s'' then
        Inr [\<lparr>Name = ''b.toml'', IsDir = False\<rparr>, \<lparr>Name = ''t'', IsDir = True\<rparr>]
      else if p = ''/c/s/t'' then Inr []
      else if p = ''/u'' then Inl (External ''permission denied'')
      else Inl (External ''not a directory''))"

definition example_ReadFile :: "path \<Rightarrow> error + string" where
  "example_ReadFile p =
     (if p = ''/c/a.toml'' then Inr ''A''
      else if p = ''/c/s/b.toml'' then Inr ''B''
      else if p = ''/c/n.txt'' then Inr ''N''
      else if p = ''/e.toml'' then Inr ''E''
      else Inl (External ''no such file or directory''))"

definition example_Create :: "string \<Rightarrow> Configuration option \<times> error option" where
  "example_Create content =
     (if content = ''A'' then
        (Some \<lparr>Backends = Some [(''X'', 1)], Frontends = Some [(''F'', 2)], TLS = None\<rparr>, None)
      else if content = ''B'' then
        (Some \<lparr>Backends = Some [(''Y'', 3)], Frontends = None, TLS = Some [4]\<rparr>, None)
      else if content = ''N'' then (None, None)
      else if content = ''E'' then (Some \<lparr>Backends = None, Frontends = None, TLS = None\<rparr>, None)
      else (None, Some (External ''decode'')))"

definition example_env :: env where
  "example_env =
     \<lparr>os_Stat = example_Stat, ioutil_ReadDir = example_ReadDir,
      ioutil_ReadFile = example_ReadFile,
      filepath_Join = (\<lambda>d n. d @ ''/'' @ n), path_Join = (\<lambda>d n. d @ ''/'' @ n),
      CreateConfiguration = example_Create, DecodeConfiguration = example_Create\<rparr>"

definition example_tree :: "unit tree" where
  "example_tree =
     Dir [(''a.toml'', File ()), (''n.txt'', File ()),
          (''s'', Dir [(''b.toml'', File ()), (''t'', Dir [])])]"

definition example_provider :: Provider where
  "example_provider =
     \<lparr>Directory = ''/c'', Filename = [], Watch = True, TraefikFile = [],
      watchedDirectories = Map.empty\<rparr>"

text \<open>A running provider in directory mode that watches the three directories.\<close>

definition example_world :: World where
  "example_world =
     \<lparr>provider = example_provider\<lparr>watchedDirectories :=
        [''/c'' \<mapsto> [''/c'', ''/c/s'', ''/c/s/t''], ''/c/s'' \<mapsto> [''/c/s'', ''/c/s/t''],
         ''/c/s/t'' \<mapsto> [''/c/s/t'']]\<rparr>,
      watcher = [Watcher_Add ''/c'', Watcher_Add ''/c/s'', Watcher_Add ''/c/s/t''],
      logged = [], configurationChan = []\<rparr>"

text \<open>The same provider before any event, and a provider that watches the single file \<^verbatim>\<open>/etc/app.cfg\<close>.\<close>

definition example_idle :: World where
  "example_idle =
     \<lparr>provider = example_provider, watcher = [], logged = [], configurationChan = []\<rparr>"


section \<open>Properties of getDirectoriesRecursively\<close>

lemma fold_max_ge: "(a::nat) \<le> fold max xs a"
proof (induction xs arbitrary: a)
  case Nil show ?case by simp
next
  case (Cons x xs)
  have "a \<le> max x a" by simp
  also have "\<dots> \<le> fold max xs (max x a)" by (rule Cons.IH)
  finally show ?case by simp
qed

lemma fold_max_mem: "(x::nat) \<in> set xs \<Longrightarrow> x \<le> fold max xs a"
proof (induction xs arbitrary: a)
  case Nil then show ?case by simp
next
  case (Cons y ys)
  show ?case
  proof (cases "x = y")
    case True
    have "x \<le> max y a" using True by simp
    also have "\<dots> \<le> fold max ys (max y a)" by (rule fold_max_ge)
    finally show ?thesis by simp
  next
    case False
    with Cons.prems have "x \<in> set ys" by simp
    then show ?thesis using Cons.IH by simp
  qed
qed

lemma depth_child: "(nm, t) \<in> set es \<Longrightarrow> depth t < depth (Dir es)"
proof -
  assume "(nm, t) \<in> set es"
  then have "depth t \<in> set (map (\<lambda>(n, t). depth t) es)" by force
  then have "depth t \<le> fold max (map (\<lambda>(n, t). depth t) es) 0" by (rule fold_max_mem)
  then show ?thesis by simp
qed

lemma getDirectoriesRecursively_range_tree:
  assumes IH: "\<And>nm t p. (nm, t) \<in> set es \<Longrightarrow> is_Dir t \<Longrightarrow>
            getDirectoriesRecursively n e p (child rootDir nm) =
              Some (Inr (listing (child rootDir nm) t), recorded p (child rootDir nm) t)"
  shows "getDirectoriesRecursively_range n e p rootDir (map item_of es) directories =
           Some (Inr (directories @ concat (map (\<lambda>(nm, t). listing (child rootDir nm) t) es)),
                 fold (\<lambda>(nm, t) q. recorded q (child rootDir nm) t) es p)"
  using IH
proof (induction es arbitrary: p directories)
  case Nil
  show ?case by simp
next
  case (Cons x es)
  obtain nm t where x: "x = (nm, t)" by (cases x)
  show ?case
  proof (cases t)
    case (File a)
    then show ?thesis using Cons.IH Cons.prems by (simp add: x item_of_def)
  next
    case (Dir ds)
    have "getDirectoriesRecursively n e p (child rootDir nm) =
            Some (Inr (listing (child rootDir nm) t), recorded p (child rootDir nm) t)"
      using Cons.prems [of nm t p] by (simp add: x Dir)
    then show ?thesis using Cons.IH Cons.prems
      by (simp add: x item_of_def Dir child_def)
  qed
qed

lemma getDirectoriesRecursively_tree:
  "is_Dir t \<Longrightarrow> dir_at e rootDir t \<Longrightarrow> depth t \<le> n \<Longrightarrow>
     getDirectoriesRecursively n e p rootDir =
       Some (Inr (listing rootDir t), recorded p rootDir t)"
proof (induction t arbitrary: n p rootDir)
  case (File x)
  then show ?case by simp
next
  case (Dir es)
  from Dir.prems(3) obtain m where n: "n = Suc m" by (cases n) auto
  have sub: "getDirectoriesRecursively m e q (child rootDir nm) =
              Some (Inr (listing (child rootDir nm) t), recorded q (child rootDir nm) t)"
    if "(nm, t) \<in> set es" "is_Dir t" for nm t q
  proof (rule Dir.IH [OF that(1) _ that(2)])
    show "t \<in> Basic_BNFs.snds (nm, t)" by simp
    show "dir_at e (child rootDir nm) t"
      using Dir.prems(2) that(1) by (auto simp: list_all_iff)
    show "depth t \<le> m" using depth_child [OF that(1)] Dir.prems(3) n by simp
  qed
  have "getDirectoriesRecursively_range m e p rootDir (map item_of es) [rootDir] =
           Some (Inr ([rootDir] @ concat (map (\<lambda>(nm, t). listing (child rootDir nm) t) es)),
                 fold (\<lambda>(nm, t) q. recorded q (child rootDir nm) t) es p)"
    by (rule getDirectoriesRecursively_range_tree) (rule sub)
  then show ?case using Dir.prems(2)
    by (auto simp add: n Let_def split: sum.splits)
qed

lemma HasSuffix_slash: "strings_HasSuffix s ''/'' \<longleftrightarrow> s \<noteq> [] \<and> last s = CHR ''/''"
proof (cases s rule: rev_cases)
  case Nil
  then show ?thesis by (simp add: strings_HasSuffix_def)
next
  case (snoc ys y)
  then show ?thesis by (simp add: strings_HasSuffix_def)
qed

lemma TrimSuffix_slash:
  "strings_TrimSuffix s ''/'' = (if s \<noteq> [] \<and> last s = CHR ''/'' then butlast s else s)"
  by (simp add: strings_TrimSuffix_def HasSuffix_slash butlast_conv_take)

lemma child_no_trailing_slash:
  assumes "n \<noteq> []" "CHR ''/'' \<notin> set n"
  shows "strings_TrimSuffix (child p n) ''/'' = child p n"
proof -
  have "last (child p n) = last n" using assms by (simp add: child_def)
  moreover have "last n \<in> set n" using assms by simp
  ultimately have "last (child p n) \<noteq> CHR ''/''" using assms by metis
  then show ?thesis by (simp add: TrimSuffix_slash)
qed

lemma listing_below:
  "wf_names t \<Longrightarrow> strings_TrimSuffix c ''/'' = c \<Longrightarrow> x \<in> set (listing c t) \<Longrightarrow> below c x"
proof (induction t arbitrary: c x)
  case (File a)
  then show ?case by simp
next
  case (Dir es)
  show ?case
  proof (cases "x = c")
    case True
    then show ?thesis by (simp add: below_def)
  next
    case False
    with Dir.prems(3) obtain n t where nt: "(n, t) \<in> set es" and x: "x \<in> set (listing (child c n) t)"
      by auto
    from Dir.prems(1) nt have wf: "n \<noteq> []" "CHR ''/'' \<notin> set n" "wf_names t"
      by (auto simp: list_all_iff)
    have "below (child c n) x"
    proof (rule Dir.IH [OF nt _ wf(3) _ x])
      show "t \<in> Basic_BNFs.snds (n, t)" by simp
      show "strings_TrimSuffix (child c n) ''/'' = child c n"
        using wf(1,2) by (rule child_no_trailing_slash)
    qed
    then obtain s where "x = child c n @ s" by (auto simp: below_def)
    then have "x = c @ (''/'' @ n @ s)" using Dir.prems(2) by (simp add: child_def)
    then show ?thesis unfolding below_def by (intro exI [of _ "''/'' @ n @ s"]) simp
  qed
qed

lemma listing_child_below:
  assumes "n \<noteq> []" "CHR ''/'' \<notin> set n" "wf_names t" "x \<in> set (listing (child p n) t)"
  shows "below (child p n) x"
  using assms(3) child_no_trailing_slash [OF assms(1,2)] assms(4) by (rule listing_below)

lemma below_name_eq:
  assumes "below (q @ n1) x" "below (q @ n2) x"
    and "CHR ''/'' \<notin> set n1" "CHR ''/'' \<notin> set n2"
  shows "n1 = n2"
proof -
  from assms(1) obtain s1 where s1: "x = (q @ n1) @ s1" "s1 = [] \<or> hd s1 = CHR ''/''"
    by (auto simp: below_def)
  from assms(2) obtain s2 where s2: "x = (q @ n2) @ s2" "s2 = [] \<or> hd s2 = CHR ''/''"
    by (auto simp: below_def)
  have tw: "takeWhile (\<lambda>c. c \<noteq> CHR ''/'') (n @ s) = n"
    if "CHR ''/'' \<notin> set n" "s = [] \<or> hd s = CHR ''/''" for n s
  proof (cases s)
    case Nil
    then show ?thesis using that(1) by (simp add: takeWhile_eq_all_conv) metis
  next
    case (Cons a as)
    then have a: "a = CHR ''/''" using that(2) by simp
    have "takeWhile (\<lambda>c. c \<noteq> CHR ''/'') (n @ s) = n @ takeWhile (\<lambda>c. c \<noteq> CHR ''/'') s"
      using that(1) by (intro takeWhile_append2) metis
    then show ?thesis using a Cons by simp
  qed
  from s1 s2 have "n1 @ s1 = n2 @ s2" by simp
  then have "takeWhile (\<lambda>c. c \<noteq> CHR ''/'') (n1 @ s1) = takeWhile (\<lambda>c. c \<noteq> CHR ''/'') (n2 @ s2)"
    by simp
  then show ?thesis using tw [OF assms(3) s1(2)] tw [OF assms(4) s2(2)] by simp
qed

lemma root_not_below_child:
  assumes "n \<noteq> []"
  shows "\<not> below (child p n) p"
proof
  assume "below (child p n) p"
  then obtain s where s: "p = strings_TrimSuffix p ''/'' @ ''/'' @ n @ s"
    by (auto simp: below_def child_def)
  show False
  proof (cases "p \<noteq> [] \<and> last p = CHR ''/''")
    case True
    then have "p = butlast p @ ''/''" by (metis append_butlast_last_id)
    moreover from s True have "p = butlast p @ ''/'' @ n @ s" by (simp add: TrimSuffix_slash)
    ultimately have "butlast p @ ''/'' = butlast p @ ''/'' @ n @ s" by metis
    then show False using assms by simp
  next
    case False
    with s have "p = p @ ''/'' @ n @ s" by (simp add: TrimSuffix_slash)
    then show False by simp
  qed
qed

lemma fold_recorded_frame:
  assumes "\<And>n t q. (n, t) \<in> set es \<Longrightarrow>
             watchedDirectories (recorded q (child root n) t) k = watchedDirectories q k"
  shows "watchedDirectories (fold (\<lambda>(n, t) q. recorded q (child root n) t) es p) k =
           watchedDirectories p k"
  using assms
proof (induction es arbitrary: p)
  case Nil
  show ?case by simp
next
  case (Cons x es)
  obtain n t where x: "x = (n, t)" by (cases x)
  have "watchedDirectories (fold (\<lambda>(n, t) q. recorded q (child root n) t) es
            (recorded p (child root n) t)) k =
          watchedDirectories (recorded p (child root n) t) k"
    using Cons.prems by (intro Cons.IH) simp
  also have "\<dots> = watchedDirectories p k" using Cons.prems [of n t p] by (simp add: x)
  finally show ?case by (simp add: x)
qed

lemma recorded_frame:
  "k \<notin> set (listing root t) \<Longrightarrow>
     watchedDirectories (recorded p root t) k = watchedDirectories p k"
proof (induction t arbitrary: p root)
  case (File a)
  show ?case by simp
next
  case (Dir es)
  have "watchedDirectories (fold (\<lambda>(n, t) q. recorded q (child root n) t) es p) k =
          watchedDirectories p k"
  proof (rule fold_recorded_frame)
    fix n t q
    assume nt: "(n, t) \<in> set es"
    then have "k \<notin> set (listing (child root n) t)" using Dir.prems by auto
    with nt show "watchedDirectories (recorded q (child root n) t) k = watchedDirectories q k"
      by (intro Dir.IH [of "(n, t)"]) simp_all
  qed
  then show ?case using Dir.prems by (simp add: Let_def)
qed

lemma listing_subdirs: "map fst (subdirs p t) = listing p t"
proof (induction t arbitrary: p)
  case (File a)
  show ?case by simp
next
  case (Dir es)
  have "map (map fst \<circ> (\<lambda>(n, t). subdirs (child p n) t)) es =
          map (\<lambda>(n, t). listing (child p n) t) es"
    using Dir.IH by (intro map_cong) (auto simp: snds.simps)
  then have "concat (map (map fst \<circ> (\<lambda>(n, t). subdirs (child p n) t)) es) =
          concat (map (\<lambda>(n, t). listing (child p n) t) es)"
    by (rule arg_cong)
  then show ?case by (simp add: map_concat)
qed

lemma subdirs_in_listing: "(d, sub) \<in> set (subdirs p t) \<Longrightarrow> d \<in> set (listing p t)"
  using listing_subdirs [of p t] by (metis fst_conv image_eqI set_map)

lemma siblings_disjoint:
  assumes wf: "wf_names (Dir es)"
    and 1: "(n1, t1) \<in> set es" "x \<in> set (listing (child root n1) t1)"
    and 2: "(n2, t2) \<in> set es" "x \<in> set (listing (child root n2) t2)"
  shows "n1 = n2"
proof -
  from wf 1(1) have w1: "n1 \<noteq> []" "CHR ''/'' \<notin> set n1" "wf_names t1"
    by (auto simp: list_all_iff)
  from wf 2(1) have w2: "n2 \<noteq> []" "CHR ''/'' \<notin> set n2" "wf_names t2"
    by (auto simp: list_all_iff)
  have "below (child root n1) x" using w1 1(2) by (rule listing_child_below)
  moreover have "below (child root n2) x" using w2 2(2) by (rule listing_child_below)
  ultimately show ?thesis
    using below_name_eq [of "strings_TrimSuffix root ''/'' @ ''/''" n1 x n2] w1(2) w2(2)
    by (simp add: child_def)
qed

lemma root_not_in_child_listing:
  assumes wf: "wf_names (Dir es)" and nt: "(n, t) \<in> set es"
  shows "root \<notin> set (listing (child root n) t)"
proof
  assume x: "root \<in> set (listing (child root n) t)"
  from wf nt have w: "n \<noteq> []" "CHR ''/'' \<notin> set n" "wf_names t"
    by (auto simp: list_all_iff)
  have "below (child root n) root" using w x by (rule listing_child_below)
  then show False using root_not_below_child [OF w(1)] by simp
qed

lemma fold_recorded_subdirs:
  assumes IH: "\<And>n t q. (n, t) \<in> set es \<Longrightarrow> (d, sub) \<in> set (subdirs (child root n) t) \<Longrightarrow>
             watchedDirectories (recorded q (child root n) t) d = Some (listing d sub)"
    and disj: "\<And>n1 t1 n2 t2. (n1, t1) \<in> set es \<Longrightarrow> (n2, t2) \<in> set es \<Longrightarrow>
             d \<in> set (listing (child root n1) t1) \<Longrightarrow> d \<in> set (listing (child root n2) t2) \<Longrightarrow>
             n1 = n2"
    and dist: "distinct (map fst es)"
    and mem: "(n, t) \<in> set es" "(d, sub) \<in> set (subdirs (child root n) t)"
  shows "watchedDirectories (fold (\<lambda>(n, t) q. recorded q (child root n) t) es p) d =
           Some (listing d sub)"
  using assms
proof (induction es arbitrary: p)
  case Nil
  then show ?case by simp
next
  case (Cons x es)
  obtain n0 t0 where x: "x = (n0, t0)" by (cases x)
  let ?p0 = "recorded p (child root n0) t0"
  show ?case
  proof (cases "n = n0")
    case True
    with Cons.prems(3,4) x have t: "t = t0"
      by (auto simp: rev_image_eqI)
    have "watchedDirectories (fold (\<lambda>(n, t) q. recorded q (child root n) t) es ?p0) d =
            watchedDirectories ?p0 d"
    proof (rule fold_recorded_frame)
      fix n' t' q
      assume m: "(n', t') \<in> set es"
      have "d \<notin> set (listing (child root n') t')"
      proof
        assume "d \<in> set (listing (child root n') t')"
        moreover have "d \<in> set (listing (child root n0) t0)"
          using Cons.prems(5) True t by (auto intro: subdirs_in_listing)
        ultimately have "n' = n0" using Cons.prems(2) [of n' t' n0 t0] m x by simp
        then show False using Cons.prems(3) m x by (auto simp: rev_image_eqI)
      qed
      then show "watchedDirectories (recorded q (child root n') t') d = watchedDirectories q d"
        by (rule recorded_frame)
    qed
    also have "\<dots> = Some (listing d sub)"
      using Cons.prems(1) [of n0 t0 p] Cons.prems(5) x True t by simp
    finally show ?thesis by (simp add: x)
  next
    case False
    with Cons.prems(4) x have m: "(n, t) \<in> set es" by simp
    have "watchedDirectories (fold (\<lambda>(n, t) q. recorded q (child root n) t) es ?p0) d =
            Some (listing d sub)"
    proof (rule Cons.IH [OF _ _ _ m Cons.prems(5)])
      show "distinct (map fst es)" using Cons.prems(3) by simp
    next
      fix n t q
      assume "(n, t) \<in> set es" "(d, sub) \<in> set (subdirs (child root n) t)"
      then show "watchedDirectories (recorded q (child root n) t) d = Some (listing d sub)"
        using Cons.prems(1) by simp
    next
      fix n1 t1 n2 t2
      assume "(n1, t1) \<in> set es" "(n2, t2) \<in> set es"
        "d \<in> set (listing (child root n1) t1)" "d \<in> set (listing (child root n2) t2)"
      then show "n1 = n2" using Cons.prems(2) [of n1 t1 n2 t2] by simp
    qed
    then show ?thesis by (simp add: x)
  qed
qed

lemma recorded_subdirs:
  "wf_names t \<Longrightarrow> (d, sub) \<in> set (subdirs root t) \<Longrightarrow>
     watchedDirectories (recorded p root t) d = Some (listing d sub)"
proof (induction t arbitrary: p root)
  case (File a)
  then show ?case by simp
next
  case (Dir es)
  show ?case
  proof (cases "(d, sub) = (root, Dir es)")
    case True
    then show ?thesis by (simp add: Let_def)
  next
    case False
    with Dir.prems(2) obtain n t where nt: "(n, t) \<in> set es"
      and d: "(d, sub) \<in> set (subdirs (child root n) t)" by auto
    have "d \<in> set (listing (child root n) t)" using d by (rule subdirs_in_listing)
    then have neq: "d \<noteq> root" using root_not_in_child_listing [OF Dir.prems(1) nt] by auto
    have "watchedDirectories (fold (\<lambda>(n, t) q. recorded q (child root n) t) es p) d =
            Some (listing d sub)"
    proof (rule fold_recorded_subdirs [OF _ _ _ nt d])
      show "distinct (map fst es)" using Dir.prems(1) by simp
    next
      fix n t q
      assume m: "(n, t) \<in> set es" "(d, sub) \<in> set (subdirs (child root n) t)"
      have "wf_names t" using Dir.prems(1) m(1) by (auto simp: list_all_iff)
      with m show "watchedDirectories (recorded q (child root n) t) d = Some (listing d sub)"
        by (intro Dir.IH [of "(n, t)"]) simp_all
    next
      fix n1 t1 n2 t2
      assume "(n1, t1) \<in> set es" "(n2, t2) \<in> set es"
        "d \<in> set (listing (child root n1) t1)" "d \<in> set (listing (child root n2) t2)"
      then show "n1 = n2" using siblings_disjoint [OF Dir.prems(1)] by blast
    qed
    then show ?thesis using neq by (simp add: Let_def)
  qed
qed

lemma example_dir_at: "dir_at example_env ''/c'' example_tree"
  by (simp add: example_tree_def example_env_def example_Stat_def example_ReadDir_def
      item_of_def child_def strings_TrimSuffix_def strings_HasSuffix_def)

text \<open>
  Claim C6, as the code has it. With any bound that allows one call:
  when \<^verbatim>\<open>os.Stat\<close> of the root fails, the call fails with the error that wraps it and
  writes nothing; when the root is not a directory, the call returns the empty slice, no
  error, and writes nothing; when the root is a directory whose listing fails, the call fails.
  When the root is a directory tree all of whose directories can be listed, and the bound
  allows the depth of the tree, the call returns the root first, then the paths of the
  subdirectories, each subtree in full before the next entry of the same listing.
\<close>

theorem getDirectoriesRecursively_contract:
  "(os_Stat e rootDir = Inl err \<longrightarrow>
      getDirectoriesRecursively (Suc n) e p rootDir = Some (Inl (UnableToStat rootDir err), p)) \<and>
   (os_Stat e rootDir = Inr info \<and> \<not> IsDir info \<longrightarrow>
      getDirectoriesRecursively (Suc n) e p rootDir = Some (Inr [], p)) \<and>
   (os_Stat e rootDir = Inr info \<and> IsDir info \<and> ioutil_ReadDir e rootDir = Inl err \<longrightarrow>
      getDirectoriesRecursively (Suc n) e p rootDir =
        Some (Inl (UnableToInitSubDirectories rootDir err), p)) \<and>
   (dir_at e rootDir (Dir es) \<and> depth (Dir es) \<le> m \<longrightarrow>
      (\<exists>p'. getDirectoriesRecursively m e p rootDir =
         Some (Inr (rootDir # concat (map (\<lambda>(name, t). listing (child rootDir name) t) es)), p')))"
proof (intro conjI impI)
  assume "dir_at e rootDir (Dir es) \<and> depth (Dir es) \<le> m"
  then have "getDirectoriesRecursively m e p rootDir =
       Some (Inr (listing rootDir (Dir es)), recorded p rootDir (Dir es))"
    by (intro getDirectoriesRecursively_tree) simp_all
  then show "\<exists>p'. getDirectoriesRecursively m e p rootDir =
         Some (Inr (rootDir # concat (map (\<lambda>(name, t). listing (child rootDir name) t) es)), p')"
    by simp
qed simp_all

theorem getDirectoriesRecursively_contract_witness:
  "getDirectoriesRecursively 1 example_env example_provider ''/x'' =
     Some (Inl (UnableToStat ''/x'' (External ''no such file or directory'')), example_provider) \<and>
   getDirectoriesRecursively 1 example_env example_provider ''/c/n.txt'' =
     Some (Inr [], example_provider) \<and>
   getDirectoriesRecursively 1 example_env example_provider ''/u'' =
     Some (Inl (UnableToInitSubDirectories ''/u'' (External ''permission denied'')),
           example_provider) \<and>
   (\<exists>p'. getDirectoriesRecursively 3 example_env example_provider ''/c'' =
          Some (Inr [''/c'', ''/c/s'', ''/c/s/t''], p'))"
proof -
  have 1: "os_Stat example_env ''/x'' = Inl (External ''no such file or directory'')"
    by (simp add: example_env_def example_Stat_def)
  have 2: "os_Stat example_env ''/c/n.txt'' = Inr \<lparr>Name = ''n.txt'', IsDir = False\<rparr> \<and>
           \<not> IsDir \<lparr>Name = ''n.txt'', IsDir = False\<rparr>"
    by (simp add: example_env_def example_Stat_def)
  have 3: "os_Stat example_env ''/u'' = Inr \<lparr>Name = ''u'', IsDir = True\<rparr> \<and>
           IsDir \<lparr>Name = ''u'', IsDir = True\<rparr> \<and>
           ioutil_ReadDir example_env ''/u'' = Inl (External ''permission denied'')"
    by (simp add: example_env_def example_Stat_def example_ReadDir_def)
  have 4: "dir_at example_env ''/c''
             (Dir [(''a.toml'', File ()), (''n.txt'', File ()),
                   (''s'', Dir [(''b.toml'', File ()), (''t'', Dir [])])]) \<and>
           depth (Dir [(''a.toml'', File ()), (''n.txt'', File ()),
                       (''s'', Dir [(''b.toml'', File ()), (''t'', Dir [])])]) \<le> 3"
    using example_dir_at by (simp add: example_tree_def)
  show ?thesis
    using 1 2 3 4
      getDirectoriesRecursively_contract [where e = example_env and rootDir = "''/x''"
        and n = 0 and p = example_provider]
      getDirectoriesRecursively_contract [where e = example_env and rootDir = "''/c/n.txt''"
        and n = 0 and p = example_provider]
      getDirectoriesRecursively_contract [where e = example_env and rootDir = "''/u''"
        and n = 0 and p = example_provider]
      getDirectoriesRecursively_contract [where e = example_env and rootDir = "''/c''"
        and m = 3 and p = example_provider
        and es = "[(''a.toml'', File ()), (''n.txt'', File ()),
                   (''s'', Dir [(''b.toml'', File ()), (''t'', Dir [])])]"]
    by (simp add: child_def strings_TrimSuffix_def strings_HasSuffix_def)
qed

text \<open>
  Claim C6 as it is stated has no third outcome for a root that is a directory: here the root
  \<^verbatim>\<open>/u\<close> is a directory that \<^verbatim>\<open>ioutil.ReadDir\<close> cannot list, and the call fails.
\<close>

theorem getDirectoriesRecursively_unreadable_counterexample:
  "os_Stat example_env ''/u'' = Inr \<lparr>Name = ''u'', IsDir = True\<rparr> \<and>
   getDirectoriesRecursively 1 example_env example_provider ''/u'' =
     Some (Inl (UnableToInitSubDirectories ''/u'' (External ''permission denied'')),
           example_provider)"
  by (simp add: example_env_def example_Stat_def example_ReadDir_def)

section \<open>Properties of the watched directories\<close>

lemma removeWatched_eq:
  "k \<le> length subs \<Longrightarrow>
   removeWatched subs k w =
     w\<lparr>watcher := watcher w @ map Watcher_Remove (rev (take k subs)),
       provider := (provider w)\<lparr>watchedDirectories :=
         watchedDirectories (provider w) |` (- set (take k subs))\<rparr>\<rparr>"
proof (induction k arbitrary: w)
  case 0
  show ?case by simp
next
  case (Suc i)
  then have i: "i < length subs" by simp
  have t: "take (Suc i) subs = take i subs @ [subs ! i]"
    using i by (rule take_Suc_conv_app_nth)
  define w1 where "w1 = w\<lparr>watcher := watcher w @ [Watcher_Remove (subs ! i)],
          provider := (provider w)\<lparr>watchedDirectories :=
            (watchedDirectories (provider w))(subs ! i := None)\<rparr>\<rparr>"
  have "removeWatched subs (Suc i) w = removeWatched subs i w1"
    by (simp add: w1_def)
  also have "\<dots> = w1\<lparr>watcher := watcher w1 @ map Watcher_Remove (rev (take i subs)),
       provider := (provider w1)\<lparr>watchedDirectories :=
         watchedDirectories (provider w1) |` (- set (take i subs))\<rparr>\<rparr>"
    using i by (intro Suc.IH) simp
  also have "\<dots> = w\<lparr>watcher := watcher w @ map Watcher_Remove (rev (take (Suc i) subs)),
       provider := (provider w)\<lparr>watchedDirectories :=
         watchedDirectories (provider w) |` (- set (take (Suc i) subs))\<rparr>\<rparr>"
  proof -
    have "- set (take i subs) - {subs ! i} = - insert (subs ! i) (set (take i subs))"
      by auto
    then show ?thesis unfolding w1_def by (simp add: t insert_absorb)
  qed
  finally show ?case .
qed

lemma keyed_by_head_Init: "keyed_by_head (Init p)"
  by (simp add: keyed_by_head_def Init_def)

lemma range_keyed_by_head:
  assumes H: "\<And>p root r p'. keyed_by_head p \<Longrightarrow>
                getDirectoriesRecursively n e p root = Some (r, p') \<Longrightarrow> keyed_by_head p'"
  shows "keyed_by_head p \<Longrightarrow>
         getDirectoriesRecursively_range n e p rootDir fileList ds = Some (r, p') \<Longrightarrow>
         keyed_by_head p' \<and> (\<forall>ds'. r = Inr ds' \<longrightarrow> (\<exists>sfx. ds' = ds @ sfx))"
proof (induction fileList arbitrary: p ds)
  case Nil
  then show ?case by auto
next
  case (Cons item fileList)
  show ?case
  proof (cases "IsDir item")
    case False
    then show ?thesis using Cons.IH [of p ds] Cons.prems by simp
  next
    case True
    let ?c = "strings_TrimSuffix rootDir ''/'' @ ''/'' @ Name item"
    from Cons.prems(2) True obtain r1 p1 where
      c: "getDirectoriesRecursively n e p ?c = Some (r1, p1)"
      by (cases "getDirectoriesRecursively n e p ?c") auto
    have k1: "keyed_by_head p1" using H [OF Cons.prems(1) c] .
    show ?thesis
    proof (cases r1)
      case (Inl err)
      then show ?thesis using Cons.prems(2) True c k1 by auto
    next
      case (Inr subDir)
      then have "getDirectoriesRecursively_range n e p1 rootDir fileList (ds @ subDir) =
                 Some (r, p')"
        using Cons.prems(2) True c by simp
      from Cons.IH [OF k1 this] show ?thesis by auto
    qed
  qed
qed

lemma getDirectoriesRecursively_keyed_by_head:
  "keyed_by_head p \<Longrightarrow> getDirectoriesRecursively n e p rootDir = Some (r, p') \<Longrightarrow>
     keyed_by_head p'"
proof (induction n arbitrary: p rootDir r p')
  case 0
  then show ?case by simp
next
  case (Suc n)
  show ?case
  proof (cases "os_Stat e rootDir")
    case (Inl err)
    then show ?thesis using Suc.prems by auto
  next
    case (Inr info)
    note stat = this
    show ?thesis
    proof (cases "IsDir info")
      case False
      then show ?thesis using Suc.prems stat by auto
    next
      case True
      show ?thesis
      proof (cases "ioutil_ReadDir e rootDir")
        case (Inl err)
        then show ?thesis using Suc.prems stat True by auto
      next
        case (Inr fileList)
        from Suc.prems(2) stat True Inr obtain r1 p1 where
          c: "getDirectoriesRecursively_range n e p rootDir fileList [rootDir] = Some (r1, p1)"
          by (cases "getDirectoriesRecursively_range n e p rootDir fileList [rootDir]") auto
        have k: "keyed_by_head p1 \<and> (\<forall>ds'. r1 = Inr ds' \<longrightarrow> (\<exists>sfx. ds' = [rootDir] @ sfx))"
          using Suc.IH Suc.prems(1) c by (rule range_keyed_by_head)
        show ?thesis
        proof (cases r1)
          case (Inl err)
          then show ?thesis using Suc.prems(2) stat True Inr c k by auto
        next
          case (Inr ds')
          with k obtain sfx where sfx: "ds' = rootDir # sfx" by auto
          have p': "p' = p1\<lparr>watchedDirectories :=
                      (watchedDirectories p1)(rootDir \<mapsto> rootDir # sfx)\<rparr>"
            using Suc.prems(2) stat True \<open>ioutil_ReadDir e rootDir = Inr fileList\<close> c Inr sfx
            by simp
          from k have k1: "keyed_by_head p1" by simp
          show ?thesis unfolding keyed_by_head_def
          proof (intro allI impI)
            fix x l
            assume a: "watchedDirectories p' x = Some l"
            show "l \<noteq> [] \<and> hd l = x"
            proof (cases "x = rootDir")
              case True
              then have "l = rootDir # sfx" using a p' by simp
              then show ?thesis using True by simp
            next
              case False
              then have "watchedDirectories p1 x = Some l" using a p' by simp
              then show ?thesis using k1 unfolding keyed_by_head_def by blast
            qed
          qed
        qed
      qed
    qed
  qed
qed

lemma watcherCallback_provider:
  "watcherCallback m e w = Returns w' \<Longrightarrow> provider w' = provider w \<and> watcher w' = watcher w"
  by (auto simp: watcherCallback_def sendConfigToChannel_def
      split: sum.splits run.splits prod.splits option.splits)

lemma watchDirectoryEvent_Remove:
  assumes "Event_Op evt = Remove \<or> Event_Op evt = Rename"
    and "watchedDirectories (provider w) (Event_Name evt) = Some subs"
  shows "watchDirectoryEvent n e evt w =
     Returns (w\<lparr>watcher := watcher w @ map Watcher_Remove (rev subs),
       provider := (provider w)\<lparr>watchedDirectories :=
         watchedDirectories (provider w) |` (- set subs)\<rparr>\<rparr>)"
  using assms removeWatched_eq [of "length subs" subs w]
  by (simp add: watchDirectoryEvent_def)

lemma keyed_by_head_restrict:
  "keyed_by_head p \<Longrightarrow>
     keyed_by_head (p\<lparr>watchedDirectories := watchedDirectories p |` A\<rparr>)"
  by (auto simp: keyed_by_head_def restrict_map_def split: if_splits)

text \<open>
  Claim C7. In directory mode (\<open>Directory\<close> is set), for an event whose operation is
  \<^verbatim>\<open>Remove\<close> or \<^verbatim>\<open>Rename\<close>, on a provider whose recorded lists start with their keys:
  the event returns to the callback a state \<open>w'\<close>, and the callback of the provider changes
  neither the map nor the watcher. When the path of the event is a key of the map, the watch
  handles of its recorded list have been removed last entry first, the map has lost exactly
  the entries of that list, so it holds neither the path nor any path of the list; when the
  path is not a key, nothing has changed.
\<close>

theorem remove_event_unwatches_subtree:
  assumes "length (Directory (provider w)) > 0"
    and "Event_Op evt = Remove \<or> Event_Op evt = Rename"
    and "keyed_by_head (provider w)"
  shows "\<exists>w'. watchDirectoryEvent n e evt w = Returns w' \<and>
           addWatcher_event callback n e evt w = callback w' \<and>
           (\<forall>m w''. watcherCallback m e w' = Returns w'' \<longrightarrow>
              provider w'' = provider w' \<and> watcher w'' = watcher w') \<and>
           (case watchedDirectories (provider w) (Event_Name evt) of
              None \<Rightarrow> w' = w
            | Some subDirectories \<Rightarrow>
                watcher w' = watcher w @ map Watcher_Remove (rev subDirectories) \<and>
                provider w' = (provider w)\<lparr>watchedDirectories :=
                  watchedDirectories (provider w) |` (- set subDirectories)\<rparr> \<and>
                watchedDirectories (provider w') (Event_Name evt) = None \<and>
                (\<forall>d \<in> set subDirectories. watchedDirectories (provider w') d = None) \<and>
                keyed_by_head (provider w'))"
proof (cases "watchedDirectories (provider w) (Event_Name evt)")
  case None
  then have "watchDirectoryEvent n e evt w = Returns w"
    using assms(2) by (simp add: watchDirectoryEvent_def)
  then show ?thesis using assms(1) None watcherCallback_provider
    by (simp add: addWatcher_event_def)
next
  case (Some subs)
  let ?w = "w\<lparr>watcher := watcher w @ map Watcher_Remove (rev subs),
       provider := (provider w)\<lparr>watchedDirectories :=
         watchedDirectories (provider w) |` (- set subs)\<rparr>\<rparr>"
  have r: "watchDirectoryEvent n e evt w = Returns ?w"
    using assms(2) Some by (rule watchDirectoryEvent_Remove)
  have "subs \<noteq> [] \<and> hd subs = Event_Name evt"
    using assms(3) Some unfolding keyed_by_head_def by blast
  then have mem: "Event_Name evt \<in> set subs" by (metis hd_in_set)
  have k: "keyed_by_head (provider ?w)"
    using keyed_by_head_restrict [OF assms(3)] by simp
  show ?thesis
  proof (intro exI [of _ ?w] conjI)
    show "watchDirectoryEvent n e evt w = Returns ?w" by (rule r)
    show "addWatcher_event callback n e evt w = callback ?w"
      using assms(1) r by (simp add: addWatcher_event_def)
    show "\<forall>m w''. watcherCallback m e ?w = Returns w'' \<longrightarrow>
              provider w'' = provider ?w \<and> watcher w'' = watcher ?w"
      using watcherCallback_provider by blast
    show "case watchedDirectories (provider w) (Event_Name evt) of
              None \<Rightarrow> ?w = w
            | Some subDirectories \<Rightarrow>
                watcher ?w = watcher w @ map Watcher_Remove (rev subDirectories) \<and>
                provider ?w = (provider w)\<lparr>watchedDirectories :=
                  watchedDirectories (provider w) |` (- set subDirectories)\<rparr> \<and>
                watchedDirectories (provider ?w) (Event_Name evt) = None \<and>
                (\<forall>d \<in> set subDirectories. watchedDirectories (provider ?w) d = None) \<and>
                keyed_by_head (provider ?w)"
      using Some mem k by simp
  qed
qed

lemma subdirs_is_Dir: "(d, sub) \<in> set (subdirs root t) \<Longrightarrow> is_Dir sub"
proof (induction t arbitrary: root)
  case (File a)
  then show ?case by simp
next
  case (Dir es)
  show ?case
  proof (cases "(d, sub) = (root, Dir es)")
    case True
    then show ?thesis by auto
  next
    case False
    with Dir.prems obtain n t where nt: "(n, t) \<in> set es"
      and d: "(d, sub) \<in> set (subdirs (child root n) t)" by auto
    show ?thesis using nt d by (intro Dir.IH [of "(n, t)" t "child root n"]) simp_all
  qed
qed

lemma hd_listing: "is_Dir t \<Longrightarrow> hd (listing d t) = d"
  by (cases t) simp_all

text \<open>
  Claim C10. On a directory tree that can be listed and whose names are those of a
  filesystem, a call that the bound allows returns the listing of the tree, and afterwards
  every directory of the tree, not only the root, is a key of the map: its list is the
  listing of its own subtree, which starts with the key itself. Hence a \<^verbatim>\<open>Remove\<close> or
  \<^verbatim>\<open>Rename\<close> event on any of these directories finds its entry and removes the watch
  handles of that whole subtree, last entry first.
\<close>

theorem getDirectoriesRecursively_records_subtree:
  assumes "dir_at e rootDir t" and "is_Dir t" and "wf_names t" and "depth t \<le> n"
  shows "\<exists>p'. getDirectoriesRecursively n e p rootDir = Some (Inr (listing rootDir t), p') \<and>
     (\<forall>(d, sub) \<in> set (subdirs rootDir t).
        watchedDirectories p' d = Some (listing d sub) \<and> hd (listing d sub) = d \<and>
        (\<forall>w evt m. provider w = p' \<and> Event_Name evt = d \<and>
             (Event_Op evt = Remove \<or> Event_Op evt = Rename) \<longrightarrow>
           (\<exists>w'. watchDirectoryEvent m e evt w = Returns w' \<and>
                 watcher w' = watcher w @ map Watcher_Remove (rev (listing d sub)))))"
proof (intro exI [of _ "recorded p rootDir t"] conjI)
  show "getDirectoriesRecursively n e p rootDir =
          Some (Inr (listing rootDir t), recorded p rootDir t)"
    using assms(2,1,4) by (rule getDirectoriesRecursively_tree)
  show "\<forall>(d, sub) \<in> set (subdirs rootDir t).
        watchedDirectories (recorded p rootDir t) d = Some (listing d sub) \<and>
        hd (listing d sub) = d \<and>
        (\<forall>w evt m. provider w = recorded p rootDir t \<and> Event_Name evt = d \<and>
             (Event_Op evt = Remove \<or> Event_Op evt = Rename) \<longrightarrow>
           (\<exists>w'. watchDirectoryEvent m e evt w = Returns w' \<and>
                 watcher w' = watcher w @ map Watcher_Remove (rev (listing d sub))))"
  proof (intro ballI, clarify)
    fix d sub
    assume m: "(d, sub) \<in> set (subdirs rootDir t)"
    have 1: "watchedDirectories (recorded p rootDir t) d = Some (listing d sub)"
      using assms(3) m by (rule recorded_subdirs)
    have 2: "hd (listing d sub) = d"
      using m by (intro hd_listing) (rule subdirs_is_Dir)
    have 3: "\<exists>w'. watchDirectoryEvent m e evt w = Returns w' \<and>
                 watcher w' = watcher w @ map Watcher_Remove (rev (listing d sub))"
      if "provider w = recorded p rootDir t \<and> Event_Name evt = d \<and>
             (Event_Op evt = Remove \<or> Event_Op evt = Rename)" for w evt m
    proof -
      have "watchedDirectories (provider w) (Event_Name evt) = Some (listing d sub)"
        using that 1 by simp
      with that have "watchDirectoryEvent m e evt w =
         Returns (w\<lparr>watcher := watcher w @ map Watcher_Remove (rev (listing d sub)),
           provider := (provider w)\<lparr>watchedDirectories :=
             watchedDirectories (provider w) |` (- set (listing d sub))\<rparr>\<rparr>)"
        by (intro watchDirectoryEvent_Remove) simp_all
      then show ?thesis by simp
    qed
    show "watchedDirectories (recorded p rootDir t) d = Some (listing d sub) \<and>
        hd (listing d sub) = d \<and>
        (\<forall>w evt m. provider w = recorded p rootDir t \<and> Event_Name evt = d \<and>
             (Event_Op evt = Remove \<or> Event_Op evt = Rename) \<longrightarrow>
           (\<exists>w'. watchDirectoryEvent m e evt w = Returns w' \<and>
                 watcher w' = watcher w @ map Watcher_Remove (rev (listing d sub))))"
      using 1 2 3 by blast
  qed
qed

theorem remove_event_unwatches_subtree_witness:
  "(\<exists>w'. watchDirectoryEvent 0 example_env \<lparr>Event_Name = ''/c/s'', Event_Op = Remove\<rparr>
            example_world = Returns w' \<and>
        addWatcher_event Returns 0 example_env \<lparr>Event_Name = ''/c/s'', Event_Op = Remove\<rparr>
            example_world = Returns w' \<and>
        watcher w' = watcher example_world @ [Watcher_Remove ''/c/s/t'', Watcher_Remove ''/c/s''] \<and>
        watchedDirectories (provider w') ''/c/s'' = None \<and>
        watchedDirectories (provider w') ''/c/s/t'' = None \<and>
        watchedDirectories (provider w') ''/c'' = Some [''/c'', ''/c/s'', ''/c/s/t'']) \<and>
   watchDirectoryEvent 0 example_env \<lparr>Event_Name = ''/c/a.toml'', Event_Op = Rename\<rparr>
     example_world = Returns example_world"
proof -
  have 1: "length (Directory (provider example_world)) > 0"
    by (simp add: example_world_def example_provider_def)
  have 2: "Event_Op \<lparr>Event_Name = ''/c/s'', Event_Op = Remove\<rparr> = Remove \<or>
           Event_Op \<lparr>Event_Name = ''/c/s'', Event_Op = Remove\<rparr> = Rename"
    by simp
  have 3: "keyed_by_head (provider example_world)"
    by (auto simp: keyed_by_head_def example_world_def split: if_splits)
  have 4: "watchedDirectories (provider example_world)
             (Event_Name \<lparr>Event_Name = ''/c/s'', Event_Op = Remove\<rparr>) =
           Some [''/c/s'', ''/c/s/t'']"
    by (simp add: example_world_def)
  have 5: "Event_Op \<lparr>Event_Name = ''/c/a.toml'', Event_Op = Rename\<rparr> = Remove \<or>
           Event_Op \<lparr>Event_Name = ''/c/a.toml'', Event_Op = Rename\<rparr> = Rename"
    by simp
  have 6: "watchedDirectories (provider example_world)
             (Event_Name \<lparr>Event_Name = ''/c/a.toml'', Event_Op = Rename\<rparr>) = None"
    by (simp add: example_world_def)
  have a: "\<exists>w'. watchDirectoryEvent 0 example_env \<lparr>Event_Name = ''/c/s'', Event_Op = Remove\<rparr>
            example_world = Returns w' \<and>
        addWatcher_event Returns 0 example_env \<lparr>Event_Name = ''/c/s'', Event_Op = Remove\<rparr>
            example_world = Returns w' \<and>
        watcher w' = watcher example_world @ [Watcher_Remove ''/c/s/t'', Watcher_Remove ''/c/s''] \<and>
        watchedDirectories (provider w') ''/c/s'' = None \<and>
        watchedDirectories (provider w') ''/c/s/t'' = None \<and>
        watchedDirectories (provider w') ''/c'' = Some [''/c'', ''/c/s'', ''/c/s/t'']"
    using remove_event_unwatches_subtree [OF 1 2 3, of 0 example_env Returns]
    unfolding 4 by (auto simp: example_world_def restrict_map_def)
  have b: "watchDirectoryEvent 0 example_env \<lparr>Event_Name = ''/c/a.toml'', Event_Op = Rename\<rparr>
     example_world = Returns example_world"
    using remove_event_unwatches_subtree [OF 1 5 3, of 0 example_env Returns]
    unfolding 6 by auto
  from a b show ?thesis by blast
qed

lemma example_wf_names: "wf_names example_tree"
  by (simp add: example_tree_def)

theorem getDirectoriesRecursively_records_subtree_witness:
  "\<exists>p'. getDirectoriesRecursively 3 example_env example_provider ''/c'' =
           Some (Inr [''/c'', ''/c/s'', ''/c/s/t''], p') \<and>
        watchedDirectories p' ''/c'' = Some [''/c'', ''/c/s'', ''/c/s/t''] \<and>
        watchedDirectories p' ''/c/s'' = Some [''/c/s'', ''/c/s/t''] \<and>
        watchedDirectories p' ''/c/s/t'' = Some [''/c/s/t''] \<and>
        (\<exists>w'. watchDirectoryEvent 0 example_env \<lparr>Event_Name = ''/c/s'', Event_Op = Remove\<rparr>
                 \<lparr>provider = p', watcher = [], logged = [], configurationChan = []\<rparr> =
                 Returns w' \<and>
               watcher w' = [Watcher_Remove ''/c/s/t'', Watcher_Remove ''/c/s''])"
proof -
  have 1: "is_Dir example_tree" "depth example_tree \<le> 3"
    by (simp_all add: example_tree_def)
  have c: "child ''/c'' ''s'' = ''/c/s''" "child ''/c/s'' ''t'' = ''/c/s/t''"
    by (simp_all add: child_def strings_TrimSuffix_def strings_HasSuffix_def)
  from getDirectoriesRecursively_records_subtree
    [OF example_dir_at 1(1) example_wf_names 1(2), of example_provider]
  obtain p' where p': "getDirectoriesRecursively 3 example_env example_provider ''/c'' =
           Some (Inr (listing ''/c'' example_tree), p')"
    and all: "\<forall>(d, sub) \<in> set (subdirs ''/c'' example_tree).
        watchedDirectories p' d = Some (listing d sub) \<and> hd (listing d sub) = d \<and>
        (\<forall>w evt m. provider w = p' \<and> Event_Name evt = d \<and>
             (Event_Op evt = Remove \<or> Event_Op evt = Rename) \<longrightarrow>
           (\<exists>w'. watchDirectoryEvent m example_env evt w = Returns w' \<and>
                 watcher w' = watcher w @ map Watcher_Remove (rev (listing d sub))))"
    by blast
  have l: "listing ''/c'' example_tree = [''/c'', ''/c/s'', ''/c/s/t'']"
    by (simp add: example_tree_def c)
  from all have a1: "watchedDirectories p' ''/c'' = Some [''/c'', ''/c/s'', ''/c/s/t'']"
    and a2: "watchedDirectories p' ''/c/s'' = Some [''/c/s'', ''/c/s/t'']"
    and a3: "watchedDirectories p' ''/c/s/t'' = Some [''/c/s/t'']"
    and a4: "\<forall>w evt m. provider w = p' \<and> Event_Name evt = ''/c/s'' \<and>
             (Event_Op evt = Remove \<or> Event_Op evt = Rename) \<longrightarrow>
           (\<exists>w'. watchDirectoryEvent m example_env evt w = Returns w' \<and>
                 watcher w' = watcher w @ map Watcher_Remove (rev [''/c/s'', ''/c/s/t'']))"
    by (simp_all add: example_tree_def c)
  from a4 [rule_format, of "\<lparr>provider = p', watcher = [], logged = [], configurationChan = []\<rparr>"
      "\<lparr>Event_Name = ''/c/s'', Event_Op = Remove\<rparr>" 0]
  have "\<exists>w'. watchDirectoryEvent 0 example_env \<lparr>Event_Name = ''/c/s'', Event_Op = Remove\<rparr>
                 \<lparr>provider = p', watcher = [], logged = [], configurationChan = []\<rparr> =
                 Returns w' \<and>
               watcher w' = [Watcher_Remove ''/c/s/t'', Watcher_Remove ''/c/s'']"
    by simp
  with p' l a1 a2 a3 show ?thesis by auto
qed

section \<open>Properties of the loaders\<close>

lemmas example_simps =
  example_env_def example_Stat_def example_ReadDir_def example_ReadFile_def example_Create_def
  example_provider_def

lemmas loader_simps =
  BuildConfiguration_def loadFileConfig_def readFile_def emptyConfiguration_def
  mergeLoaded_def map_exists_def map_range_def slice_range_def slice_append_def appendTLS_def
  recognized_def strings_HasSuffix_def

lemma example_BuildConfiguration:
  "BuildConfiguration 3 example_env example_provider [] =
     Returns ((Some \<lparr>Backends = Some [(''X'', 1), (''Y'', 3)], Frontends = Some [(''F'', 2)],
                     TLS = Some [4]\<rparr>, None), [])"
  by (simp add: example_simps loader_simps numeral_3_eq_3)

lemma example_BuildConfiguration_unreadable:
  "BuildConfiguration 3 example_env (example_provider\<lparr>Directory := ''/u''\<rparr>) [] =
     Returns ((None, Some (UnableToReadDirectory ''/u'' (External ''permission denied''))), [])"
  by (simp add: example_simps loader_simps numeral_3_eq_3)

















section \<open>Properties of the event loop and of the callback\<close>



text \<open>
  Claim C8. When \<^verbatim>\<open>os.Stat\<close> of the watch target fails, the callback writes one debug
  message and returns, whatever the bound: it does not build. When the build fails, the
  callback writes the error to the log and sends nothing. When the build succeeds, it sends
  the configuration. In the first two cases the channel holds what it held before.
\<close>

theorem watcherCallback_publishes_on_success_only:
  "(os_Stat e (watchItem (provider w)) = Inl err \<longrightarrow>
      watcherCallback n e w =
        Returns (w\<lparr>logged := logged w @
                     [Debugf_UnableToGetModifications (watchItem (provider w)) err]\<rparr>)) \<and>
   (os_Stat e (watchItem (provider w)) = Inr info \<and>
    BuildConfiguration n e (provider w) (logged w) = Returns ((configuration, Some err), lg) \<longrightarrow>
      watcherCallback n e w = Returns (w\<lparr>logged := lg @ [Errorf_WatcherCallback err]\<rparr>)) \<and>
   (os_Stat e (watchItem (provider w)) = Inr info \<and>
    BuildConfiguration n e (provider w) (logged w) = Returns ((configuration, None), lg) \<longrightarrow>
      watcherCallback n e w =
        Returns (w\<lparr>logged := lg,
                   configurationChan := configurationChan w @
                     [\<lparr>ProviderName = ''file'', Configuration = configuration\<rparr>]\<rparr>)) \<and>
   (\<forall>w'. watcherCallback n e w = Returns w' \<and>
      (os_Stat e (watchItem (provider w)) = Inl err \<or>
       (\<exists>c err' lg. BuildConfiguration n e (provider w) (logged w) = Returns ((c, Some err'), lg)))
      \<longrightarrow> configurationChan w' = configurationChan w)"
  by (auto simp: watcherCallback_def sendConfigToChannel_def split: sum.splits)

theorem watcherCallback_publishes_on_success_only_witness:
  "watcherCallback 0 example_env
      (example_idle\<lparr>provider := example_provider\<lparr>Directory := ''/x''\<rparr>\<rparr>) =
     Returns (example_idle\<lparr>provider := example_provider\<lparr>Directory := ''/x''\<rparr>,
        logged := [Debugf_UnableToGetModifications ''/x''
                     (External ''no such file or directory'')]\<rparr>) \<and>
   watcherCallback 3 example_env
      (example_idle\<lparr>provider := example_provider\<lparr>Directory := ''/u''\<rparr>\<rparr>) =
     Returns (example_idle\<lparr>provider := example_provider\<lparr>Directory := ''/u''\<rparr>,
        logged := [Errorf_WatcherCallback
                     (UnableToReadDirectory ''/u'' (External ''permission denied''))]\<rparr>) \<and>
   watcherCallback 3 example_env example_idle =
     Returns (example_idle\<lparr>configurationChan :=
        [\<lparr>ProviderName = ''file'',
          Configuration = Some \<lparr>Backends = Some [(''X'', 1), (''Y'', 3)],
                                 Frontends = Some [(''F'', 2)], TLS = Some [4]\<rparr>\<rparr>]\<rparr>)"
proof -
  let ?wx = "example_idle\<lparr>provider := example_provider\<lparr>Directory := ''/x''\<rparr>\<rparr>"
  let ?wu = "example_idle\<lparr>provider := example_provider\<lparr>Directory := ''/u''\<rparr>\<rparr>"
  have 1: "os_Stat example_env (watchItem (provider ?wx)) =
             Inl (External ''no such file or directory'')"
    by (simp add: example_idle_def example_simps watchItem_def)
  have 2: "os_Stat example_env (watchItem (provider ?wu)) = Inr \<lparr>Name = ''u'', IsDir = True\<rparr> \<and>
           BuildConfiguration 3 example_env (provider ?wu) (logged ?wu) =
             Returns ((None, Some (UnableToReadDirectory ''/u'' (External ''permission denied''))), [])"
    using example_BuildConfiguration_unreadable
    by (simp add: example_idle_def example_env_def example_Stat_def example_provider_def
        watchItem_def)
  have 3: "os_Stat example_env (watchItem (provider example_idle)) =
             Inr \<lparr>Name = ''c'', IsDir = True\<rparr> \<and>
           BuildConfiguration 3 example_env (provider example_idle) (logged example_idle) =
             Returns ((Some \<lparr>Backends = Some [(''X'', 1), (''Y'', 3)],
                             Frontends = Some [(''F'', 2)], TLS = Some [4]\<rparr>, None), [])"
    using example_BuildConfiguration
    by (simp add: example_idle_def example_env_def example_Stat_def example_provider_def
        watchItem_def)
  from watcherCallback_publishes_on_success_only [where e = example_env and w = ?wx and n = 0]
  have a: "watcherCallback 0 example_env ?wx =
        Returns (?wx\<lparr>logged := logged ?wx @
                     [Debugf_UnableToGetModifications (watchItem (provider ?wx))
                        (External ''no such file or directory'')]\<rparr>)"
    using 1 by blast
  from watcherCallback_publishes_on_success_only [where e = example_env and w = ?wu and n = 3]
  have b: "watcherCallback 3 example_env ?wu =
        Returns (?wu\<lparr>logged := [] @ [Errorf_WatcherCallback
                     (UnableToReadDirectory ''/u'' (External ''permission denied''))]\<rparr>)"
    using 2 by blast
  from watcherCallback_publishes_on_success_only
    [where e = example_env and w = example_idle and n = 3]
  have c: "watcherCallback 3 example_env example_idle =
        Returns (example_idle\<lparr>logged := [],
                   configurationChan := configurationChan example_idle @
                     [\<lparr>ProviderName = ''file'',
                       Configuration = Some \<lparr>Backends = Some [(''X'', 1), (''Y'', 3)],
                             Frontends = Some [(''F'', 2)], TLS = Some [4]\<rparr>\<rparr>]\<rparr>)"
    using 3 by blast
  show ?thesis
    unfolding a b c by (simp add: example_idle_def watchItem_def example_provider_def)
qed

end
